theory Spec2Isabelle
  imports Complex_Main
begin

section \<open>Data model of the coverage map (src/components/Map/Map.js)\<close>

text \<open>
  Coordinates are JavaScript numbers. The component only stores and compares them
  (\<open><\<close>, \<open>>\<close>, maximum, minimum), so they are modelled as real numbers; NaN and the
  distinction between the two zeros are outside the model.
\<close>

datatype error = InvalidArgument | TypeError | DecodeFailed

text \<open>A position as the rendering surface takes it: the array \<open>[lng, lat]\<close>.\<close>

type_synonym lnglat = "real \<times> real"

text \<open>A bounding box is the array \<open>[northeast, southwest]\<close> of two positions.\<close>

type_synonym bounding_box = "lnglat \<times> lnglat"

definition northeast :: "bounding_box \<Rightarrow> lnglat" where
  "northeast b = fst b"

definition southwest :: "bounding_box \<Rightarrow> lnglat" where
  "southwest b = snd b"

text \<open>The object \<open>{ lat, lng }\<close> that the component hands to \<open>findBounds\<close>.\<close>

record point =
  lat :: real
  lng :: real

subsection \<open>Constants\<close>

definition US_BOUNDS :: bounding_box where
  "US_BOUNDS = ((- 61.08, 44.84), (- 125, 33))"

definition US_EU_BOUNDS :: bounding_box where
  "US_EU_BOUNDS = ((32.1, 58.63), (- 125, 33))"

definition EU_CN_BOUNDS :: bounding_box where
  "EU_CN_BOUNDS = ((143.61, 62.2), (- 14.10009, 23.898041))"

text \<open>
  The padding of a fit is either an object with four sides or a single number
  (\<open>padding: 10\<close>).
\<close>

record sides =
  top' :: nat
  left :: nat
  right :: nat
  bottom :: nat

datatype padding = Sides sides | Uniform nat

definition MOBILE_PADDING :: sides where
  "MOBILE_PADDING = \<lparr>top' = 10, left = 10, right = 10, bottom = 450\<rparr>"

definition DESKTOP_PADDING :: sides where
  "DESKTOP_PADDING = \<lparr>top' = 200, left = 600, right = 200, bottom = 200\<rparr>"

record fit_options =
  padding :: padding
  animate :: bool

subsection \<open>findBounds\<close>

text \<open>
  Modelled from the spec: \<open>findBounds\<close> is imported from \<open>utils/location\<close>, which is
  not among the source files. \<open>extent\<close> and \<open>widen\<close> are the running extremes and
  the step of the single pass that the specification (4.1) describes.
\<close>

record extent =
  maxLat :: real
  minLat :: real
  maxLng :: real
  minLng :: real

definition widen :: "point \<Rightarrow> extent \<Rightarrow> extent" where
  "widen p e =
     \<lparr>maxLat = (if lat p > maxLat e then lat p else maxLat e),
      minLat = (if lat p < minLat e then lat p else minLat e),
      maxLng = (if lng p > maxLng e then lng p else maxLng e),
      minLng = (if lng p < minLng e then lng p else minLng e)\<rparr>"

text \<open>
  Modelled from the spec: the contract of \<open>findBounds\<close> in the specification (4.1).
  An empty point-set fails with \<open>InvalidArgument\<close>; otherwise a single pass computes
  \<open>maxLat, minLat, maxLng, minLng\<close> over all points and the result is
  northeast = \<open>[maxLng, maxLat]\<close>, southwest = \<open>[minLng, minLat]\<close>.
\<close>

fun findBounds :: "point list \<Rightarrow> error + bounding_box" where
  "findBounds [] = Inl InvalidArgument"
| "findBounds (p # ps) =
     (let e = fold widen ps
                \<lparr>maxLat = lat p, minLat = lat p, maxLng = lng p, minLng = lng p\<rparr>
      in Inr ((maxLng e, maxLat e), (minLng e, minLat e)))"

subsection \<open>fitBoundsOptions (lines 121-126)\<close>

definition fitBoundsOptions :: "bool \<Rightarrow> bool \<Rightarrow> bool \<Rightarrow> fit_options" where
  "fitBoundsOptions isDesktopOrLaptop showInfoBox styleLoaded =
     (let animate = styleLoaded in
      if isDesktopOrLaptop then \<lparr>padding = Sides DESKTOP_PADDING, animate = animate\<rparr>
      else if showInfoBox then \<lparr>padding = Sides MOBILE_PADDING, animate = animate\<rparr>
      else \<lparr>padding = Uniform 10, animate = animate\<rparr>)"

section \<open>The component state and its transitions\<close>

subsection \<open>Upstream values\<close>

text \<open>
  A hotspot as the selection store and \<open>fetchHotspot\<close> deliver it: the component reads
  \<open>lat\<close>, \<open>lng\<close> and the optional list \<open>witnesses\<close> (\<open>selectedHotspot.witnesses || []\<close>).
\<close>

record hotspot = point +
  witnesses :: "point list option"

text \<open>The geolocation fix \<open>currentPosition.coords\<close>.\<close>

record coords =
  latitude :: real
  longitude :: real

text \<open>
  A witness entry of a transaction path carries the encoded hex-spatial-index
  \<open>location\<close>; \<open>gateway\<close> stands for the other fields that \<open>...w\<close> copies.
\<close>

record witness =
  gateway :: string
  location :: string

text \<open>The resolved witness \<open>{ ...w, lat, lng }\<close>.\<close>

record geo_witness = point +
  entry :: witness

record path_element =
  challengee :: string
  witnesses :: "witness list"

record txn =
  type :: string
  path :: "path_element list"

text \<open>
  A rendered feature: \<open>geometry.coordinates\<close> is the position \<open>[lng, lat]\<close> of a GeoJSON
  point, \<open>properties.address\<close> the identifier handed to \<open>selectHotspot\<close>.
\<close>

record geometry =
  coordinates :: lnglat

record properties =
  address :: string

record feature =
  geometry :: geometry
  properties :: properties

text \<open>
  \<open>h3ToGeo\<close> belongs to an external library; it is a parameter of the model. It
  returns \<open>[lat, lng]\<close>; \<open>None\<close> stands for a decoder that throws. The function
  the component imports (the \<open>h3ToGeo\<close> of h3-js 3.x) checks nothing and returns a
  pair for every input, so for it the result is never \<open>None\<close>.
\<close>

type_synonym decoder = "string \<Rightarrow> (real \<times> real) option"

subsection \<open>State\<close>

text \<open>
  The state of \<open>CoverageMap\<close>: its own \<open>useState\<close> cells (\<open>styleLoaded\<close>,
  \<open>selectedTxnHotspot\<close>, \<open>selectedTxnWitnesses\<close>, \<open>bounds\<close>), the values its hooks
  deliver (\<open>isDesktopOrLaptop\<close>, \<open>showInfoBox\<close>, \<open>selectedHotspot\<close>, \<open>selectedTxn\<close>,
  \<open>currentPosition\<close>), and what its callbacks leave behind: the arguments of the
  calls to \<open>selectHotspot\<close>, the cursor style, and the invocations of the asynchronous
  function of \<open>useAsync\<close> that are suspended at \<open>await fetchHotspot(target)\<close>, each
  with the transaction its closure captured, in the order they were started.
\<close>

record coverage_map =
  isDesktopOrLaptop :: bool
  showInfoBox :: bool
  styleLoaded :: bool
  selectedTxnHotspot :: "hotspot option"
  selectedTxnWitnesses :: "geo_witness list"
  bounds :: bounding_box
  selectedHotspot :: "hotspot option"
  selectedTxn :: "txn option"
  currentPosition :: "coords option"
  selectRequests :: "string list"
  cursor :: string
  inflight :: "txn list"

text \<open>The first render (lines 50-62); the media query gives the device class.\<close>

definition init :: "bool \<Rightarrow> coverage_map" where
  "init desktop =
     \<lparr>isDesktopOrLaptop = desktop, showInfoBox = False, styleLoaded = False,
      selectedTxnHotspot = None, selectedTxnWitnesses = [],
      bounds = (if desktop then US_EU_BOUNDS else US_BOUNDS),
      selectedHotspot = None, selectedTxn = None, currentPosition = None,
      selectRequests = [], cursor = [], inflight = []\<rparr>"

definition fitOptions :: "coverage_map \<Rightarrow> fit_options" where
  "fitOptions s = fitBoundsOptions (isDesktopOrLaptop s) (showInfoBox s) (styleLoaded s)"

text \<open>\<open>setBounds(findBounds(...))\<close>: a failing \<open>findBounds\<close> throws before \<open>setBounds\<close>.\<close>

definition setBounds :: "error + bounding_box \<Rightarrow> coverage_map \<Rightarrow> error + coverage_map" where
  "setBounds r s = (case r of Inl e \<Rightarrow> Inl e | Inr b \<Rightarrow> Inr (s\<lparr>bounds := b\<rparr>))"

subsection \<open>Effects (lines 66-102)\<close>

definition positionEffect :: "coverage_map \<Rightarrow> error + coverage_map" where
  "positionEffect s =
     (case currentPosition s of
        None \<Rightarrow> Inr s
      | Some c \<Rightarrow> setBounds (findBounds [\<lparr>lat = latitude c, lng = longitude c\<rparr>]) s)"

definition hotspotEffect :: "coverage_map \<Rightarrow> error + coverage_map" where
  "hotspotEffect s =
     (case selectedHotspot s of
        None \<Rightarrow> Inr s
      | Some h \<Rightarrow>
          setBounds
            (findBounds
               (map (\<lambda>w. \<lparr>lat = lat w, lng = lng w\<rparr>)
                  (case hotspot.witnesses h of None \<Rightarrow> [] | Some ws \<Rightarrow> ws)
                @ [\<lparr>lat = lat h, lng = lng h\<rparr>])) s)"

text \<open>
  \<open>selectedTxnWitnesses\<close> only ever holds an array, which is truthy, so the guard of
  line 92 is decided by \<open>selectedTxnHotspot\<close>.
\<close>

definition txnEffect :: "coverage_map \<Rightarrow> error + coverage_map" where
  "txnEffect s =
     (case selectedTxnHotspot s of
        None \<Rightarrow> Inr s
      | Some h \<Rightarrow>
          setBounds
            (findBounds
               (map (\<lambda>w. \<lparr>lat = lat w, lng = lng w\<rparr>) (selectedTxnWitnesses s)
                @ [\<lparr>lat = lat h, lng = lng h\<rparr>])) s)"

subsection \<open>The asynchronous resolution (lines 104-119)\<close>

text \<open>\<open>witnesses.map(...)\<close>: the first decode that throws ends the whole map.\<close>

fun mapWitnesses :: "decoder \<Rightarrow> witness list \<Rightarrow> error + geo_witness list" where
  "mapWitnesses h3ToGeo [] = Inr []"
| "mapWitnesses h3ToGeo (w # ws) =
     (case h3ToGeo (location w) of
        None \<Rightarrow> Inl DecodeFailed
      | Some (lat', lng') \<Rightarrow>
          (case mapWitnesses h3ToGeo ws of
             Inl e \<Rightarrow> Inl e
           | Inr gs \<Rightarrow> Inr (\<lparr>lat = lat', lng = lng', entry = w\<rparr> # gs)))"

text \<open>The test \<open>selectedTxn?.type === 'poc_receipts_v1'\<close>.\<close>

definition isReceipt :: "txn option \<Rightarrow> bool" where
  "isReceipt t = (case t of None \<Rightarrow> False | Some x \<Rightarrow> type x = ''poc_receipts_v1'')"

text \<open>
  The function up to its first suspension. For a receipt, \<open>selectedTxn.path[0].challengee\<close>
  is read (a \<open>TypeError\<close> when the path is empty) and the invocation suspends at the
  \<open>await\<close>, having written no cell; otherwise both cells are reset at once.
\<close>

definition startResolution :: "coverage_map \<Rightarrow> error + coverage_map" where
  "startResolution s =
     (case selectedTxn s of
        None \<Rightarrow> Inr (s\<lparr>selectedTxnHotspot := None, selectedTxnWitnesses := []\<rparr>)
      | Some t \<Rightarrow>
          if type t = ''poc_receipts_v1'' then
            (case path t of
               [] \<Rightarrow> Inl TypeError
             | p # _ \<Rightarrow> Inr (s\<lparr>inflight := inflight s @ [t]\<rparr>))
          else Inr (s\<lparr>selectedTxnHotspot := None, selectedTxnWitnesses := []\<rparr>))"

text \<open>
  The function after the \<open>await\<close>, for the captured transaction \<open>t\<close> and the fetched
  \<open>targetHotspot\<close>. Nothing compares \<open>t\<close> with the transaction selected by now.
\<close>

definition resumeResolution ::
  "decoder \<Rightarrow> txn \<Rightarrow> hotspot option \<Rightarrow> coverage_map \<Rightarrow> error + coverage_map" where
  "resumeResolution h3ToGeo t targetHotspot s =
     (case path t of
        [] \<Rightarrow> Inl TypeError
      | p # _ \<Rightarrow>
          (case mapWitnesses h3ToGeo (witnesses p) of
             Inl e \<Rightarrow> Inl e
           | Inr ws \<Rightarrow>
               Inr (s\<lparr>selectedTxnHotspot := targetHotspot, selectedTxnWitnesses := ws\<rparr>)))"

subsection \<open>handleHotspotClick (lines 134-163)\<close>

text \<open>
  The handler starts by reading \<open>map.current\<close>. The ref is created empty (line 49)
  and assigned only in \<open>onStyleLoad\<close>, in the same callback that calls
  \<open>setStyledLoaded(true)\<close> (lines 182-185): it holds the map exactly when
  \<open>styleLoaded\<close> holds. Before that, \<open>map.current.queryRenderedFeatures\<close> raises a
  \<open>TypeError\<close> and nothing else happens. \<open>features\<close> is what the query returns.
\<close>

definition handleHotspotClick :: "feature list \<Rightarrow> coverage_map \<Rightarrow> error + coverage_map" where
  "handleHotspotClick features s =
     (if \<not> styleLoaded s then Inl TypeError
      else
        (case
           (case features of
              [feature] \<Rightarrow>
                Inr (s\<lparr>selectRequests := selectRequests s @ [address (properties feature)]\<rparr>)
            | _ \<Rightarrow>
                setBounds
                  (findBounds
                     (map (\<lambda>f. \<lparr>lat = snd (coordinates (geometry f)),
                                lng = fst (coordinates (geometry f))\<rparr>) features)) s)
         of Inl e \<Rightarrow> Inl e
          | Inr s' \<Rightarrow> Inr (s'\<lparr>cursor := []\<rparr>)))"

subsection \<open>Events\<close>

text \<open>
  Each event is one change seen by the component, taken with the effects it
  triggers until the state settles. \<open>FetchResolved i h\<close> and \<open>FetchRejected i\<close> end the
  \<open>i\<close>-th suspended invocation.
\<close>

datatype event =
    PositionChanged "coords option"
  | HotspotChanged "hotspot option"
  | TxnChanged "txn option"
  | FetchResolved nat "hotspot option"
  | FetchRejected nat
  | HotspotClick "feature list"
  | MediaQueryChanged bool
  | InfoBoxChanged bool
  | StyleLoad

fun isContextEvent :: "event \<Rightarrow> bool" where
  "isContextEvent (MediaQueryChanged _) = True"
| "isContextEvent (InfoBoxChanged _) = True"
| "isContextEvent StyleLoad = True"
| "isContextEvent _ = False"

definition dropTask :: "nat \<Rightarrow> coverage_map \<Rightarrow> coverage_map" where
  "dropTask i s = s\<lparr>inflight := take i (inflight s) @ drop (Suc i) (inflight s)\<rparr>"

text \<open>
  \<open>Inl\<close> is an exception that escapes an effect. An exception of the asynchronous
  function rejects its promise, and one of the click handler leaves through the
  map's event dispatch: in both cases the cells keep the values they had. The
  effect of lines 91-102 runs when one of the two cells it depends on was written.
\<close>

fun step :: "decoder \<Rightarrow> coverage_map \<Rightarrow> event \<Rightarrow> error + coverage_map" where
  "step h3ToGeo s (PositionChanged c) = positionEffect (s\<lparr>currentPosition := c\<rparr>)"
| "step h3ToGeo s (HotspotChanged h) = hotspotEffect (s\<lparr>selectedHotspot := h\<rparr>)"
| "step h3ToGeo s (TxnChanged t) =
     (let s1 = s\<lparr>selectedTxn := t\<rparr> in
      case startResolution s1 of
        Inl e \<Rightarrow> Inr s1
      | Inr s2 \<Rightarrow> if isReceipt t then Inr s2 else txnEffect s2)"
| "step h3ToGeo s (FetchResolved i targetHotspot) =
     (if i < length (inflight s) then
        (case resumeResolution h3ToGeo (inflight s ! i) targetHotspot (dropTask i s) of
           Inl e \<Rightarrow> Inr (dropTask i s)
         | Inr s' \<Rightarrow> txnEffect s')
      else Inr s)"
| "step h3ToGeo s (FetchRejected i) =
     (if i < length (inflight s) then Inr (dropTask i s) else Inr s)"
| "step h3ToGeo s (HotspotClick features) =
     (case handleHotspotClick features s of Inl e \<Rightarrow> Inr s | Inr s' \<Rightarrow> Inr s')"
| "step h3ToGeo s (MediaQueryChanged b) = Inr (s\<lparr>isDesktopOrLaptop := b\<rparr>)"
| "step h3ToGeo s (InfoBoxChanged b) = Inr (s\<lparr>showInfoBox := b\<rparr>)"
| "step h3ToGeo s StyleLoad = Inr (s\<lparr>styleLoaded := True\<rparr>)"

fun run :: "decoder \<Rightarrow> coverage_map \<Rightarrow> event list \<Rightarrow> error + coverage_map" where
  "run h3ToGeo s [] = Inr s"
| "run h3ToGeo s (e # es) =
     (case step h3ToGeo s e of Inl x \<Rightarrow> Inl x | Inr s' \<Rightarrow> run h3ToGeo s' es)"

subsection \<open>A scenario with two receipts\<close>

text \<open>
  Two receipt transactions with one witness each, the hotspots their challengees
  resolve to, and a decoder that, like the library's, returns a pair for every
  input: the coordinates are placeholders, \<open>(0, 0)\<close> for every other string.
\<close>

definition txnA :: txn where
  "txnA = \<lparr>type = ''poc_receipts_v1'',
            path = [\<lparr>challengee = ''A'',
                     witnesses = [\<lparr>gateway = ''wA'', location = ''8a1''\<rparr>]\<rparr>]\<rparr>"

definition txnB :: txn where
  "txnB = \<lparr>type = ''poc_receipts_v1'',
            path = [\<lparr>challengee = ''B'',
                     witnesses = [\<lparr>gateway = ''wB'', location = ''8b1''\<rparr>]\<rparr>]\<rparr>"

definition hotspotA :: hotspot where
  "hotspotA = \<lparr>lat = 10, lng = 20, hotspot.witnesses = None\<rparr>"

definition hotspotB :: hotspot where
  "hotspotB = \<lparr>lat = 30, lng = 40, hotspot.witnesses = None\<rparr>"

definition decodeAB :: decoder where
  "decodeAB h =
     (if h = ''8a1'' then Some (11, 21) else if h = ''8b1'' then Some (31, 41)
      else Some (0, 0))"


section \<open>Properties\<close>

subsection \<open>The single pass of findBounds\<close>

lemma fold_widen_maxLat:
  "maxLat (fold widen ps e) = Max (insert (maxLat e) (lat ` set ps))"
proof (induction ps arbitrary: e)
  case Nil
  show ?case by simp
next
  case (Cons p ps)
  have "Max (insert (maxLat (widen p e)) (lat ` set ps))
        = Max (insert (maxLat e) (insert (lat p) (lat ` set ps)))"
    by (cases "lat ` set ps = {}") (auto simp: widen_def max_def insert_commute)
  with Cons show ?case by simp
qed

lemma fold_widen_maxLng:
  "maxLng (fold widen ps e) = Max (insert (maxLng e) (lng ` set ps))"
proof (induction ps arbitrary: e)
  case Nil
  show ?case by simp
next
  case (Cons p ps)
  have "Max (insert (maxLng (widen p e)) (lng ` set ps))
        = Max (insert (maxLng e) (insert (lng p) (lng ` set ps)))"
    by (cases "lng ` set ps = {}") (auto simp: widen_def max_def insert_commute)
  with Cons show ?case by simp
qed

lemma fold_widen_minLat:
  "minLat (fold widen ps e) = Min (insert (minLat e) (lat ` set ps))"
proof (induction ps arbitrary: e)
  case Nil
  show ?case by simp
next
  case (Cons p ps)
  have "Min (insert (minLat (widen p e)) (lat ` set ps))
        = Min (insert (minLat e) (insert (lat p) (lat ` set ps)))"
    by (cases "lat ` set ps = {}") (auto simp: widen_def min_def insert_commute)
  with Cons show ?case by simp
qed

lemma fold_widen_minLng:
  "minLng (fold widen ps e) = Min (insert (minLng e) (lng ` set ps))"
proof (induction ps arbitrary: e)
  case Nil
  show ?case by simp
next
  case (Cons p ps)
  have "Min (insert (minLng (widen p e)) (lng ` set ps))
        = Min (insert (minLng e) (insert (lng p) (lng ` set ps)))"
    by (cases "lng ` set ps = {}") (auto simp: widen_def min_def insert_commute)
  with Cons show ?case by simp
qed

lemma findBounds_Cons:
  "findBounds (p # ps) =
     Inr ((Max (lng ` set (p # ps)), Max (lat ` set (p # ps))),
          (Min (lng ` set (p # ps)), Min (lat ` set (p # ps))))"
  by (simp add: Let_def fold_widen_maxLat fold_widen_maxLng fold_widen_minLat
        fold_widen_minLng del: Max_insert Min_insert)

lemma findBounds_snoc: "\<exists>b. findBounds (ps @ [p]) = Inr b"
  by (cases ps) (simp_all add: Let_def)

text \<open>
  C1. For every non-empty point-set, \<open>findBounds\<close> returns the box whose northeast
  corner is [max lng, max lat] and whose southwest corner is [min lng, min lat] over
  all the points; for a single point the two corners are equal.
\<close>

theorem findBounds_extremes:
  "(ps \<noteq> [] \<longrightarrow>
      (\<exists>b. findBounds ps = Inr b
          \<and> northeast b = (Max (lng ` set ps), Max (lat ` set ps))
          \<and> southwest b = (Min (lng ` set ps), Min (lat ` set ps))))
   \<and> (\<exists>b. findBounds [p] = Inr b \<and> northeast b = southwest b
          \<and> northeast b = (lng p, lat p))"
proof (intro conjI impI)
  assume "ps \<noteq> []"
  then obtain q qs where "ps = q # qs" by (cases ps) auto
  then show "\<exists>b. findBounds ps = Inr b
          \<and> northeast b = (Max (lng ` set ps), Max (lat ` set ps))
          \<and> southwest b = (Min (lng ` set ps), Min (lat ` set ps))"
    by (simp only: findBounds_Cons northeast_def southwest_def) simp
next
  show "\<exists>b. findBounds [p] = Inr b \<and> northeast b = southwest b
          \<and> northeast b = (lng p, lat p)"
    by (simp add: northeast_def southwest_def)
qed

theorem findBounds_extremes_witness:
  "[\<lparr>lat = 1, lng = 2\<rparr>, \<lparr>lat = 3, lng = - 4\<rparr>, \<lparr>lat = - 5, lng = 6\<rparr>] \<noteq> []
   \<and> findBounds [\<lparr>lat = 1, lng = 2\<rparr>, \<lparr>lat = 3, lng = - 4\<rparr>, \<lparr>lat = - 5, lng = 6\<rparr>]
       = Inr ((6, 3), (- 4, - 5))
   \<and> findBounds [\<lparr>lat = 10, lng = 20\<rparr>] = Inr ((20, 10), (20, 10))"
  using findBounds_extremes
    [of "[\<lparr>lat = 1, lng = 2\<rparr>, \<lparr>lat = 3, lng = - 4\<rparr>, \<lparr>lat = - 5, lng = 6\<rparr>]"
        "\<lparr>lat = 10, lng = 20\<rparr>"]
  by (auto simp: northeast_def southwest_def)

subsection \<open>Fit options\<close>

text \<open>
  C4. The \<open>animate\<close> flag of the resolved fit options is the surface-ready flag, whatever
  the device class and the overlay visibility: false before readiness, true after.
\<close>

theorem animate_is_styleLoaded:
  "animate (fitBoundsOptions isDesktop overlay ready) = ready"
  by (simp add: fitBoundsOptions_def)

text \<open>
  C5. The padding rules are tried in a fixed order, the first match winning: a wide
  viewport gives the desktop padding (whose left side is the largest), also when an
  overlay is visible; otherwise a visible overlay gives the bottom-biased padding;
  otherwise the padding is the uniform 10.
\<close>

theorem padding_priority:
  "padding (fitBoundsOptions True overlay ready) = Sides DESKTOP_PADDING
   \<and> padding (fitBoundsOptions True True True) = Sides DESKTOP_PADDING
   \<and> padding (fitBoundsOptions False True ready) = Sides MOBILE_PADDING
   \<and> padding (fitBoundsOptions False False ready) = Uniform 10
   \<and> Sides DESKTOP_PADDING \<noteq> Sides MOBILE_PADDING
   \<and> top' DESKTOP_PADDING < left DESKTOP_PADDING
   \<and> right DESKTOP_PADDING < left DESKTOP_PADDING
   \<and> bottom DESKTOP_PADDING < left DESKTOP_PADDING
   \<and> top' MOBILE_PADDING < bottom MOBILE_PADDING
   \<and> left MOBILE_PADDING < bottom MOBILE_PADDING
   \<and> right MOBILE_PADDING < bottom MOBILE_PADDING"
  by (simp add: fitBoundsOptions_def DESKTOP_PADDING_def MOBILE_PADDING_def)

subsection \<open>The click handler\<close>

text \<open>
  C6. Once the map is there (the style has loaded), a click that hits exactly one
  feature requests the selection of that feature's address and leaves the bounds as
  they are; a click that hits more than one feature sets the bounds to the box of the
  coordinates of all hit features, duplicates included. Hits at (lat 1, lng 2) and
  (lat 3, lng 4) give northeast = [4, 3], southwest = [2, 1].
\<close>

theorem handleHotspotClick_outcome:
  assumes "styleLoaded s"
  shows
  "(\<exists>s'. handleHotspotClick [f] s = Inr s'
        \<and> selectRequests s' = selectRequests s @ [address (properties f)]
        \<and> bounds s' = bounds s)
   \<and> (1 < length fs \<longrightarrow>
        (\<exists>s'. handleHotspotClick fs s = Inr s'
           \<and> selectRequests s' = selectRequests s
           \<and> northeast (bounds s')
               = (Max ((\<lambda>f. fst (coordinates (geometry f))) ` set fs),
                  Max ((\<lambda>f. snd (coordinates (geometry f))) ` set fs))
           \<and> southwest (bounds s')
               = (Min ((\<lambda>f. fst (coordinates (geometry f))) ` set fs),
                  Min ((\<lambda>f. snd (coordinates (geometry f))) ` set fs))))
   \<and> (\<exists>s'. handleHotspotClick
               [\<lparr>geometry = \<lparr>coordinates = (2, 1)\<rparr>, properties = \<lparr>address = a1\<rparr>\<rparr>,
                \<lparr>geometry = \<lparr>coordinates = (4, 3)\<rparr>, properties = \<lparr>address = a2\<rparr>\<rparr>] s
             = Inr s'
        \<and> northeast (bounds s') = (4, 3) \<and> southwest (bounds s') = (2, 1))"
proof (intro conjI impI)
  show "\<exists>s'. handleHotspotClick [f] s = Inr s'
        \<and> selectRequests s' = selectRequests s @ [address (properties f)]
        \<and> bounds s' = bounds s"
    using assms by (simp add: handleHotspotClick_def)
next
  assume "1 < length fs"
  then obtain g h hs where fs: "fs = g # h # hs"
    by (cases fs; cases "tl fs") auto
  show "\<exists>s'. handleHotspotClick fs s = Inr s'
           \<and> selectRequests s' = selectRequests s
           \<and> northeast (bounds s')
               = (Max ((\<lambda>f. fst (coordinates (geometry f))) ` set fs),
                  Max ((\<lambda>f. snd (coordinates (geometry f))) ` set fs))
           \<and> southwest (bounds s')
               = (Min ((\<lambda>f. fst (coordinates (geometry f))) ` set fs),
                  Min ((\<lambda>f. snd (coordinates (geometry f))) ` set fs))"
    using assms unfolding fs handleHotspotClick_def setBounds_def
    by (simp add: findBounds_Cons northeast_def southwest_def image_image
          del: findBounds.simps Max_insert Min_insert)
next
  show "\<exists>s'. handleHotspotClick
               [\<lparr>geometry = \<lparr>coordinates = (2, 1)\<rparr>, properties = \<lparr>address = a1\<rparr>\<rparr>,
                \<lparr>geometry = \<lparr>coordinates = (4, 3)\<rparr>, properties = \<lparr>address = a2\<rparr>\<rparr>] s
             = Inr s'
        \<and> northeast (bounds s') = (4, 3) \<and> southwest (bounds s') = (2, 1)"
    using assms
    by (simp add: handleHotspotClick_def setBounds_def widen_def northeast_def
          southwest_def)
qed

theorem handleHotspotClick_outcome_witness:
  "styleLoaded ((init True)\<lparr>styleLoaded := True\<rparr>)
   \<and> 1 < length [\<lparr>geometry = \<lparr>coordinates = (2, 1)\<rparr>, properties = \<lparr>address = ''h1''\<rparr>\<rparr>,
               \<lparr>geometry = \<lparr>coordinates = (2, 1)\<rparr>, properties = \<lparr>address = ''h1''\<rparr>\<rparr>,
               \<lparr>geometry = \<lparr>coordinates = (- 7, 5)\<rparr>, properties = \<lparr>address = ''h2''\<rparr>\<rparr>]
   \<and> (\<exists>s'. handleHotspotClick
               [\<lparr>geometry = \<lparr>coordinates = (- 7, 5)\<rparr>, properties = \<lparr>address = ''h2''\<rparr>\<rparr>]
               ((init True)\<lparr>styleLoaded := True\<rparr>) = Inr s'
          \<and> selectRequests s' = [''h2''] \<and> bounds s' = US_EU_BOUNDS)
   \<and> (\<exists>s'. handleHotspotClick
               [\<lparr>geometry = \<lparr>coordinates = (2, 1)\<rparr>, properties = \<lparr>address = ''h1''\<rparr>\<rparr>,
                \<lparr>geometry = \<lparr>coordinates = (2, 1)\<rparr>, properties = \<lparr>address = ''h1''\<rparr>\<rparr>,
                \<lparr>geometry = \<lparr>coordinates = (- 7, 5)\<rparr>, properties = \<lparr>address = ''h2''\<rparr>\<rparr>]
               ((init True)\<lparr>styleLoaded := True\<rparr>) = Inr s'
          \<and> selectRequests s' = []
          \<and> northeast (bounds s') = (2, 5) \<and> southwest (bounds s') = (- 7, 1))"
proof -
  have loaded: "styleLoaded ((init True)\<lparr>styleLoaded := True\<rparr>)"
    by simp
  show ?thesis
    using loaded handleHotspotClick_outcome
      [OF loaded,
        of "\<lparr>geometry = \<lparr>coordinates = (- 7, 5)\<rparr>, properties = \<lparr>address = ''h2''\<rparr>\<rparr>"
        "[\<lparr>geometry = \<lparr>coordinates = (2, 1)\<rparr>, properties = \<lparr>address = ''h1''\<rparr>\<rparr>,
          \<lparr>geometry = \<lparr>coordinates = (2, 1)\<rparr>, properties = \<lparr>address = ''h1''\<rparr>\<rparr>,
          \<lparr>geometry = \<lparr>coordinates = (- 7, 5)\<rparr>, properties = \<lparr>address = ''h2''\<rparr>\<rparr>]"]
    by (auto simp: init_def)
qed

subsection \<open>Transitions never raise\<close>

lemma setBounds_snoc:
  "\<exists>b. setBounds (findBounds (ps @ [p])) s = Inr (s\<lparr>bounds := b\<rparr>)"
proof -
  obtain b where "findBounds (ps @ [p]) = Inr b"
    using findBounds_snoc by blast
  then have "setBounds (findBounds (ps @ [p])) s = Inr (s\<lparr>bounds := b\<rparr>)"
    by (simp add: setBounds_def)
  then show ?thesis ..
qed

lemma positionEffect_result:
  "\<exists>b. positionEffect s = Inr (s\<lparr>bounds := b\<rparr>)"
proof (cases "currentPosition s")
  case None
  have "s = s\<lparr>bounds := bounds s\<rparr>" by simp
  with None show ?thesis unfolding positionEffect_def
    by (metis option.simps(4))
next
  case (Some c)
  have "\<exists>b. setBounds (findBounds ([] @ [\<lparr>lat = latitude c, lng = longitude c\<rparr>])) s
          = Inr (s\<lparr>bounds := b\<rparr>)"
    by (rule setBounds_snoc)
  then show ?thesis
    unfolding positionEffect_def Some option.simps append_Nil .
qed

lemma hotspotEffect_result:
  "\<exists>b. hotspotEffect s = Inr (s\<lparr>bounds := b\<rparr>)"
proof (cases "selectedHotspot s")
  case None
  have "s = s\<lparr>bounds := bounds s\<rparr>" by simp
  with None show ?thesis unfolding hotspotEffect_def
    by (metis option.simps(4))
next
  case (Some h)
  show ?thesis
    unfolding hotspotEffect_def Some option.simps by (rule setBounds_snoc)
qed

lemma txnEffect_result:
  "\<exists>b. txnEffect s = Inr (s\<lparr>bounds := b\<rparr>)"
proof (cases "selectedTxnHotspot s")
  case None
  have "s = s\<lparr>bounds := bounds s\<rparr>" by simp
  with None show ?thesis unfolding txnEffect_def
    by (metis option.simps(4))
next
  case (Some h)
  show ?thesis
    unfolding txnEffect_def Some option.simps by (rule setBounds_snoc)
qed

lemma txnEffect_None:
  "selectedTxnHotspot s = None \<Longrightarrow> txnEffect s = Inr s"
  by (simp add: txnEffect_def)

lemma step_total: "\<exists>s'. step h3ToGeo s e = Inr s'"
proof (cases e)
  case (PositionChanged c)
  then show ?thesis
    using positionEffect_result [of "s\<lparr>currentPosition := c\<rparr>"] by auto
next
  case (HotspotChanged h)
  then show ?thesis
    using hotspotEffect_result [of "s\<lparr>selectedHotspot := h\<rparr>"] by auto
next
  case (TxnChanged t)
  then show ?thesis
    using txnEffect_result by (auto simp: Let_def split: sum.splits)
next
  case (FetchResolved i h)
  then show ?thesis
    using txnEffect_result by (auto split: sum.splits)
next
  case (HotspotClick fs)
  then show ?thesis by (auto split: sum.splits)
qed simp_all

lemma run_total: "\<exists>s'. run h3ToGeo s es = Inr s'"
proof (induction es arbitrary: s)
  case Nil
  show ?case by simp
next
  case (Cons e es)
  obtain s1 where "step h3ToGeo s e = Inr s1"
    using step_total by blast
  with Cons show ?case by simp
qed

subsection \<open>What a transition leaves alone\<close>

lemma effect_frame:
  "positionEffect s = Inr s' \<Longrightarrow> styleLoaded s' = styleLoaded s"
  "hotspotEffect s = Inr s' \<Longrightarrow> styleLoaded s' = styleLoaded s"
  "txnEffect s = Inr s' \<Longrightarrow> styleLoaded s' = styleLoaded s"
  using positionEffect_result [of s] hotspotEffect_result [of s] txnEffect_result [of s]
  by auto

lemma startResolution_styleLoaded:
  "startResolution s = Inr s' \<Longrightarrow> styleLoaded s' = styleLoaded s"
  by (auto simp: startResolution_def split: option.splits if_splits list.splits)

lemma resumeResolution_styleLoaded:
  "resumeResolution h3ToGeo t h s = Inr s' \<Longrightarrow> styleLoaded s' = styleLoaded s"
  by (auto simp: resumeResolution_def split: list.splits sum.splits)

lemma handleHotspotClick_styleLoaded:
  "handleHotspotClick fs s = Inr s' \<Longrightarrow> styleLoaded s' = styleLoaded s"
  by (auto simp: handleHotspotClick_def setBounds_def
        split: if_splits list.splits sum.splits)

lemma step_styleLoaded:
  assumes "step h3ToGeo s e = Inr s'" and "styleLoaded s"
  shows "styleLoaded s'"
proof (cases e)
  case (PositionChanged c)
  with assms show ?thesis by (auto dest: effect_frame)
next
  case (HotspotChanged h)
  with assms show ?thesis by (auto dest: effect_frame)
next
  case (TxnChanged t)
  with assms show ?thesis
    by (auto simp: Let_def split: sum.splits if_splits
          dest!: effect_frame startResolution_styleLoaded)
next
  case (FetchResolved i h)
  with assms show ?thesis
    by (auto simp: dropTask_def split: sum.splits if_splits
          dest!: effect_frame resumeResolution_styleLoaded)
next
  case (FetchRejected i)
  with assms show ?thesis by (auto simp: dropTask_def split: if_splits)
next
  case (HotspotClick fs)
  with assms show ?thesis
    by (auto split: sum.splits dest!: handleHotspotClick_styleLoaded)
next
  case (MediaQueryChanged b)
  with assms show ?thesis by auto
next
  case (InfoBoxChanged b)
  with assms show ?thesis by auto
next
  case StyleLoad
  with assms show ?thesis by auto
qed

lemma run_styleLoaded:
  "run h3ToGeo s es = Inr s' \<Longrightarrow> styleLoaded s \<Longrightarrow> styleLoaded s'"
proof (induction es arbitrary: s)
  case Nil
  then show ?case by simp
next
  case (Cons e es)
  obtain s1 where s1: "step h3ToGeo s e = Inr s1"
    using step_total by blast
  with Cons.prems have "run h3ToGeo s1 es = Inr s'" by simp
  moreover have "styleLoaded s1"
    using s1 Cons.prems(2) by (rule step_styleLoaded)
  ultimately show ?case by (rule Cons.IH)
qed

lemma context_step:
  "isContextEvent e \<Longrightarrow> \<exists>s'. step h3ToGeo s e = Inr s' \<and> bounds s' = bounds s"
  by (cases e) simp_all

lemma context_run:
  "list_all isContextEvent es \<Longrightarrow> \<exists>s'. run h3ToGeo s es = Inr s' \<and> bounds s' = bounds s"
proof (induction es arbitrary: s)
  case Nil
  show ?case by simp
next
  case (Cons e es)
  from Cons.prems have e: "isContextEvent e" and es: "list_all isContextEvent es"
    by simp_all
  obtain s1 where s1: "step h3ToGeo s e = Inr s1" "bounds s1 = bounds s"
    using context_step [OF e, of h3ToGeo s] by auto
  obtain s' where "run h3ToGeo s1 es = Inr s'" "bounds s' = bounds s1"
    using Cons.IH [OF es, of s1] by auto
  with s1 show ?case by simp
qed



subsection \<open>The viewport state machine\<close>

text \<open>
  C7. At the first render the bounds are the default box of the device class: the
  wide-viewport box \<open>US_EU_BOUNDS\<close> on a desktop-class device, \<open>US_BOUNDS\<close> otherwise.
  While only the context changes (a later reclassification of the device included),
  the bounds stay that box.
\<close>

theorem default_bounds_at_startup:
  "bounds (init True) = US_EU_BOUNDS \<and> bounds (init False) = US_BOUNDS
   \<and> (list_all isContextEvent es \<longrightarrow>
        (\<exists>s'. run h3ToGeo (init desktop) es = Inr s'
           \<and> bounds s' = (if desktop then US_EU_BOUNDS else US_BOUNDS)))"
proof (intro conjI impI)
  assume "list_all isContextEvent es"
  then obtain s' where "run h3ToGeo (init desktop) es = Inr s'"
    and "bounds s' = bounds (init desktop)"
    using context_run by blast
  then show "\<exists>s'. run h3ToGeo (init desktop) es = Inr s'
           \<and> bounds s' = (if desktop then US_EU_BOUNDS else US_BOUNDS)"
    by (simp add: init_def)
qed (simp_all add: init_def)

theorem default_bounds_at_startup_witness:
  "list_all isContextEvent [MediaQueryChanged False, StyleLoad, InfoBoxChanged True]
   \<and> (\<exists>s'. run decodeAB (init True)
               [MediaQueryChanged False, StyleLoad, InfoBoxChanged True] = Inr s'
          \<and> bounds s' = US_EU_BOUNDS \<and> \<not> isDesktopOrLaptop s')"
  using default_bounds_at_startup
    [of "[MediaQueryChanged False, StyleLoad, InfoBoxChanged True]" decodeAB True]
  by auto

text \<open>
  C8. A change of the context alone (device class, overlay visibility, surface
  ready) leaves the bounds as they are; the fit options are those of the new context.
\<close>

theorem context_change_keeps_bounds:
  "isContextEvent e \<Longrightarrow>
     \<exists>s'. step h3ToGeo s e = Inr s' \<and> bounds s' = bounds s
        \<and> fitOptions s' =
            (case e of
               MediaQueryChanged b \<Rightarrow> fitBoundsOptions b (showInfoBox s) (styleLoaded s)
             | InfoBoxChanged b \<Rightarrow> fitBoundsOptions (isDesktopOrLaptop s) b (styleLoaded s)
             | _ \<Rightarrow> fitBoundsOptions (isDesktopOrLaptop s) (showInfoBox s) True)"
  by (cases e) (simp_all add: fitOptions_def)

theorem context_change_keeps_bounds_witness:
  "isContextEvent (InfoBoxChanged True)
   \<and> (\<exists>s'. step decodeAB (init False) (InfoBoxChanged True) = Inr s'
          \<and> bounds s' = US_BOUNDS
          \<and> fitOptions s' = \<lparr>padding = Sides MOBILE_PADDING, animate = False\<rparr>)"
  using context_change_keeps_bounds [of "InfoBoxChanged True" decodeAB "init False"]
  by (simp add: init_def fitBoundsOptions_def)

text \<open>
  C10. \<open>styleLoaded\<close> is only ever set to true: the ready signal sets it, and once it
  holds it holds after every further sequence of events, so the fit options computed
  from then on animate.
\<close>

theorem styleLoaded_monotone:
  "(\<exists>s1. step h3ToGeo s StyleLoad = Inr s1 \<and> styleLoaded s1)
   \<and> (styleLoaded s \<longrightarrow>
        (\<exists>s'. run h3ToGeo s es = Inr s' \<and> styleLoaded s' \<and> animate (fitOptions s')))"
proof (intro conjI impI)
  show "\<exists>s1. step h3ToGeo s StyleLoad = Inr s1 \<and> styleLoaded s1" by simp
next
  assume ready: "styleLoaded s"
  obtain s' where s': "run h3ToGeo s es = Inr s'"
    using run_total by blast
  then have "styleLoaded s'"
    using ready by (rule run_styleLoaded)
  then have "animate (fitOptions s')"
    by (simp add: fitOptions_def fitBoundsOptions_def)
  with s' \<open>styleLoaded s'\<close>
  show "\<exists>s'. run h3ToGeo s es = Inr s' \<and> styleLoaded s' \<and> animate (fitOptions s')"
    by blast
qed

theorem styleLoaded_monotone_witness:
  "styleLoaded ((init False)\<lparr>styleLoaded := True\<rparr>)
   \<and> (\<exists>s'. run decodeAB ((init False)\<lparr>styleLoaded := True\<rparr>)
               [TxnChanged (Some txnA), MediaQueryChanged True, HotspotClick [],
                FetchResolved 0 (Some hotspotA), InfoBoxChanged True] = Inr s'
          \<and> styleLoaded s' \<and> animate (fitOptions s'))"
  using styleLoaded_monotone
    [of decodeAB "(init False)\<lparr>styleLoaded := True\<rparr>"
        "[TxnChanged (Some txnA), MediaQueryChanged True, HotspotClick [],
          FetchResolved 0 (Some hotspotA), InfoBoxChanged True]"]
  by simp

subsection \<open>The asynchronous resolution\<close>




text \<open>
  C2, as claimed: a resolution that was superseded while in flight does not apply
  its result. It fails on the code. Select A, then B; B's fetch completes and B's
  hotspot, witnesses and bounds are in place; then A's fetch completes and, with B
  still selected, all three become A's.
\<close>

theorem stale_resolution_counterexample:
  "run decodeAB (init True)
     [TxnChanged (Some txnA), TxnChanged (Some txnB), FetchResolved 1 (Some hotspotB)]
   = Inr ((init True)
        \<lparr>selectedTxn := Some txnB,
         selectedTxnHotspot := Some hotspotB,
         selectedTxnWitnesses :=
           [\<lparr>lat = 31, lng = 41, entry = \<lparr>gateway = ''wB'', location = ''8b1''\<rparr>\<rparr>],
         bounds := ((41, 31), (40, 30)),
         inflight := [txnA]\<rparr>)
   \<and> run decodeAB (init True)
     [TxnChanged (Some txnA), TxnChanged (Some txnB), FetchResolved 1 (Some hotspotB),
      FetchResolved 0 (Some hotspotA)]
   = Inr ((init True)
        \<lparr>selectedTxn := Some txnB,
         selectedTxnHotspot := Some hotspotA,
         selectedTxnWitnesses :=
           [\<lparr>lat = 11, lng = 21, entry = \<lparr>gateway = ''wA'', location = ''8a1''\<rparr>\<rparr>],
         bounds := ((21, 11), (20, 10)),
         inflight := []\<rparr>)
   \<and> txnA \<noteq> txnB \<and> hotspotA \<noteq> hotspotB"
  by (simp add: init_def txnA_def txnB_def hotspotA_def hotspotB_def decodeAB_def
        isReceipt_def startResolution_def resumeResolution_def dropTask_def
        txnEffect_def setBounds_def widen_def)

text \<open>
  C2, amended: when the fetch of a suspended resolution completes and its witness
  locations decode, its result is applied whatever transaction is selected by then:
  \<open>selectedTxnHotspot\<close> and \<open>selectedTxnWitnesses\<close> become those of the completed
  resolution, and the bounds become the box of its witnesses and hotspot when the
  hotspot is present. The selected transaction plays no part.
\<close>

theorem completed_resolution_applies:
  assumes "i < length (inflight s)"
    and "path (inflight s ! i) = p # ps"
    and "mapWitnesses h3ToGeo (witnesses p) = Inr ws"
  shows "\<exists>s'. step h3ToGeo s (FetchResolved i targetHotspot) = Inr s'
           \<and> selectedTxn s' = selectedTxn s
           \<and> selectedTxnHotspot s' = targetHotspot
           \<and> selectedTxnWitnesses s' = ws
           \<and> (case targetHotspot of
                None \<Rightarrow> bounds s' = bounds s
              | Some h \<Rightarrow>
                  findBounds (map (\<lambda>w. \<lparr>lat = lat w, lng = lng w\<rparr>) ws
                              @ [\<lparr>lat = lat h, lng = lng h\<rparr>]) = Inr (bounds s'))"
proof -
  define s1 where
    "s1 = (dropTask i s)\<lparr>selectedTxnHotspot := targetHotspot, selectedTxnWitnesses := ws\<rparr>"
  have resumed: "resumeResolution h3ToGeo (inflight s ! i) targetHotspot (dropTask i s)
             = Inr s1"
    using assms(2,3) by (simp add: resumeResolution_def s1_def)
  then have stepped: "step h3ToGeo s (FetchResolved i targetHotspot) = txnEffect s1"
    using assms(1) by simp
  show ?thesis
  proof (cases targetHotspot)
    case None
    then have "txnEffect s1 = Inr s1"
      by (simp add: txnEffect_None s1_def)
    with stepped None show ?thesis
      by (simp add: s1_def dropTask_def)
  next
    case (Some h)
    obtain b where b: "findBounds (map (\<lambda>w. \<lparr>lat = lat w, lng = lng w\<rparr>) ws
                              @ [\<lparr>lat = lat h, lng = lng h\<rparr>]) = Inr b"
      using findBounds_snoc by blast
    with Some have "txnEffect s1 = Inr (s1\<lparr>bounds := b\<rparr>)"
      by (simp add: txnEffect_def setBounds_def s1_def)
    with stepped Some b show ?thesis
      by (simp add: s1_def dropTask_def)
  qed
qed

theorem completed_resolution_applies_witness:
  "0 < length (inflight ((init True)\<lparr>selectedTxn := Some txnB, inflight := [txnA]\<rparr>))
   \<and> path (inflight ((init True)\<lparr>selectedTxn := Some txnB, inflight := [txnA]\<rparr>) ! 0)
       = \<lparr>challengee = ''A'',
          witnesses = [\<lparr>gateway = ''wA'', location = ''8a1''\<rparr>]\<rparr> # []
   \<and> mapWitnesses decodeAB [\<lparr>gateway = ''wA'', location = ''8a1''\<rparr>]
       = Inr [\<lparr>lat = 11, lng = 21, entry = \<lparr>gateway = ''wA'', location = ''8a1''\<rparr>\<rparr>]
   \<and> (\<exists>s'. step decodeAB ((init True)\<lparr>selectedTxn := Some txnB, inflight := [txnA]\<rparr>)
               (FetchResolved 0 (Some hotspotA)) = Inr s'
          \<and> selectedTxn s' = Some txnB
          \<and> selectedTxnHotspot s' = Some hotspotA
          \<and> selectedTxnWitnesses s'
              = [\<lparr>lat = 11, lng = 21, entry = \<lparr>gateway = ''wA'', location = ''8a1''\<rparr>\<rparr>]
          \<and> bounds s' = ((21, 11), (20, 10)))"
proof -
  have h1: "0 < length (inflight ((init True)\<lparr>selectedTxn := Some txnB, inflight := [txnA]\<rparr>))"
    by simp
  have h2: "path (inflight ((init True)\<lparr>selectedTxn := Some txnB, inflight := [txnA]\<rparr>) ! 0)
       = \<lparr>challengee = ''A'',
          witnesses = [\<lparr>gateway = ''wA'', location = ''8a1''\<rparr>]\<rparr> # []"
    by (simp add: txnA_def)
  have h3: "mapWitnesses decodeAB
              (witnesses \<lparr>challengee = ''A'',
                 witnesses = [\<lparr>gateway = ''wA'', location = ''8a1''\<rparr>]\<rparr>)
       = Inr [\<lparr>lat = 11, lng = 21, entry = \<lparr>gateway = ''wA'', location = ''8a1''\<rparr>\<rparr>]"
    by (simp add: decodeAB_def)
  show ?thesis
    using h1 h2 h3 completed_resolution_applies [OF h1 h2 h3, of "Some hotspotA"]
    by (auto simp: init_def hotspotA_def widen_def)
qed

end
